theory Spec2Isabelle
  imports Main
begin

section \<open>Go values used by \<^verbatim>\<open>pkg/openfeature/hooks.go\<close>\<close>

text \<open>
  A Go \<^verbatim>\<open>interface{}\<close> is either the nil interface or holds a value. The zero value of
  the type, which a map index expression yields for a missing key, is the nil interface.
\<close>

datatype 'v iface = INil | IVal 'v

text \<open>
  A Go map is a reference: a map variable is either nil or points to a table that every
  copy of the variable shares. The tables live in a store indexed by address; copying a
  map value copies the address only. Go has no dangling map references, so every address
  has a table.
\<close>

datatype mapref = NilMap | MapAddr nat

type_synonym 'v mapstore = "nat \<Rightarrow> (string \<rightharpoonup> 'v iface)"

datatype panic = AssignToNilMap

text \<open>
  What a map holds under a key, as the two-result index expression
  \<^verbatim>\<open>v, ok := m[key]\<close> reports it: \<open>Some v\<close> when the key is present, \<open>None\<close> when it is
  not. A nil map holds nothing.
\<close>

fun map_entry :: "'v mapstore \<Rightarrow> mapref \<Rightarrow> string \<Rightarrow> 'v iface option" where
  "map_entry s NilMap key = None"
| "map_entry s (MapAddr a) key = s a key"

text \<open>
  The index expression \<^verbatim>\<open>m[key]\<close>: the value held under the key, and the zero value of
  the element type when the key is not present or the map is nil. It never panics for
  string keys.
\<close>

definition map_index :: "'v mapstore \<Rightarrow> mapref \<Rightarrow> string \<Rightarrow> 'v iface" where
  "map_index s m key = (case map_entry s m key of None \<Rightarrow> INil | Some v \<Rightarrow> v)"

text \<open>
  The assignment \<^verbatim>\<open>m[key] = v\<close> writes into the shared table and panics on a nil map;
  \<^verbatim>\<open>delete(m, key)\<close> removes the entry and does nothing on a nil map. Neither occurs in
  \<^verbatim>\<open>hooks.go\<close>: they are what a caller that still holds the map can do to it.
\<close>

fun map_assign :: "'v mapstore \<Rightarrow> mapref \<Rightarrow> string \<Rightarrow> 'v iface \<Rightarrow> panic + 'v mapstore" where
  "map_assign s NilMap key v = Inl AssignToNilMap"
| "map_assign s (MapAddr a) key v = Inr (s(a := (s a)(key \<mapsto> v)))"

fun map_delete :: "'v mapstore \<Rightarrow> mapref \<Rightarrow> string \<Rightarrow> 'v mapstore" where
  "map_delete s NilMap key = s"
| "map_delete s (MapAddr a) key = s(a := (s a)(key := None))"

section \<open>HookHints\<close>

text \<open>
  \<^verbatim>\<open>type HookHints struct { mapOfHints map[string]interface{} }\<close>
\<close>

record HookHints =
  mapOfHints :: mapref

text \<open>
  \<^verbatim>\<open>func NewHookHints(mapOfHints map[string]interface{}) HookHints {
      return HookHints{mapOfHints: mapOfHints} }\<close>

  The struct field receives the map value it is given, that is the reference.
\<close>

definition NewHookHints :: "mapref \<Rightarrow> HookHints" where
  "NewHookHints m = \<lparr>mapOfHints = m\<rparr>"

text \<open>
  \<^verbatim>\<open>func (h HookHints) Value(key string) interface{} { return h.mapOfHints[key] }\<close>

  The method reads the store and returns it as it found it.
\<close>

definition Value :: "HookHints \<Rightarrow> string \<Rightarrow> 'v mapstore \<Rightarrow> 'v iface \<times> 'v mapstore" where
  "Value h key s = (map_index s (mapOfHints h) key, s)"

section \<open>HookContext\<close>

text \<open>
  The struct of six unexported fields. The types \<^verbatim>\<open>Type\<close>, \<^verbatim>\<open>ClientMetadata\<close>,
  \<^verbatim>\<open>Metadata\<close> and \<^verbatim>\<open>EvaluationContext\<close> are declared elsewhere in the package and are
  type parameters here (\<open>'t\<close>, \<open>'cm\<close>, \<open>'pm\<close>, \<open>'ec\<close>).
\<close>

record ('v, 't, 'cm, 'pm, 'ec) HookContext =
  flagKey :: string
  flagType :: 't
  defaultValue :: "'v iface"
  clientMetadata :: 'cm
  providerMetadata :: 'pm
  evaluationContext :: 'ec

definition FlagKey :: "('v, 't, 'cm, 'pm, 'ec) HookContext \<Rightarrow> string" where
  "FlagKey h = flagKey h"

definition FlagType :: "('v, 't, 'cm, 'pm, 'ec) HookContext \<Rightarrow> 't" where
  "FlagType h = flagType h"

definition DefaultValue :: "('v, 't, 'cm, 'pm, 'ec) HookContext \<Rightarrow> 'v iface" where
  "DefaultValue h = defaultValue h"

definition ClientMetadata :: "('v, 't, 'cm, 'pm, 'ec) HookContext \<Rightarrow> 'cm" where
  "ClientMetadata h = clientMetadata h"

definition ProviderMetadata :: "('v, 't, 'cm, 'pm, 'ec) HookContext \<Rightarrow> 'pm" where
  "ProviderMetadata h = providerMetadata h"

definition EvaluationContext :: "('v, 't, 'cm, 'pm, 'ec) HookContext \<Rightarrow> 'ec" where
  "EvaluationContext h = evaluationContext h"

text \<open>
  \<^verbatim>\<open>func (h HookContext) Context() context.Context {
      return h.EvaluationContext().Context() }\<close>

  The method \<^verbatim>\<open>EvaluationContext.Context\<close> is declared with its type, outside this file;
  it is the parameter \<open>ec_Context\<close>.
\<close>

definition Context :: "('ec \<Rightarrow> 'gc) \<Rightarrow> ('v, 't, 'cm, 'pm, 'ec) HookContext \<Rightarrow> 'gc" where
  "Context ec_Context h = ec_Context (EvaluationContext h)"

definition NewHookContext ::
  "string \<Rightarrow> 't \<Rightarrow> 'v iface \<Rightarrow> 'cm \<Rightarrow> 'pm \<Rightarrow> 'ec \<Rightarrow> ('v, 't, 'cm, 'pm, 'ec) HookContext" where
  "NewHookContext fk ft dv cm pm ec =
     \<lparr>flagKey = fk, flagType = ft, defaultValue = dv, clientMetadata = cm,
      providerMetadata = pm, evaluationContext = ec\<rparr>"

section \<open>The Hook interface and UnimplementedHook\<close>

text \<open>
  \<^verbatim>\<open>type Hook interface { Before; After; Error; Finally }\<close> is a record of the four
  methods. A \<^verbatim>\<open>*EvaluationContext\<close> result is \<open>None\<close> when nil, an \<^verbatim>\<open>error\<close> is \<open>None\<close> when
  nil. \<open>'d\<close> is \<^verbatim>\<open>InterfaceEvaluationDetails\<close>. A hook is arbitrary caller code: each method
  also takes the state \<open>'s\<close> of everything it may read or write and returns the state it
  leaves behind.
\<close>

record ('v, 't, 'cm, 'pm, 'ec, 'd, 'e, 's) Hook =
  Before :: "('v, 't, 'cm, 'pm, 'ec) HookContext \<Rightarrow> HookHints \<Rightarrow> 's
               \<Rightarrow> ('ec option \<times> 'e option) \<times> 's"
  After :: "('v, 't, 'cm, 'pm, 'ec) HookContext \<Rightarrow> 'd \<Rightarrow> HookHints \<Rightarrow> 's
               \<Rightarrow> ('ec option \<times> 'e option) \<times> 's"
  Error :: "('v, 't, 'cm, 'pm, 'ec) HookContext \<Rightarrow> 'e option \<Rightarrow> HookHints \<Rightarrow> 's
               \<Rightarrow> 'ec option \<times> 's"
  Finally :: "('v, 't, 'cm, 'pm, 'ec) HookContext \<Rightarrow> HookHints \<Rightarrow> 's
               \<Rightarrow> 'ec option \<times> 's"

text \<open>
  \<^verbatim>\<open>func (UnimplementedHook) After(HookContext, InterfaceEvaluationDetails, HookHints)
      (*EvaluationContext, error) { return nil, nil }\<close>
  \<^verbatim>\<open>func (UnimplementedHook) Before(HookContext, HookHints) (*EvaluationContext, error)
      { return nil, nil }\<close>
  \<^verbatim>\<open>func (UnimplementedHook) Error(HookContext, error, HookHints) *EvaluationContext
      { return nil }\<close>
  \<^verbatim>\<open>func (UnimplementedHook) Finally(HookContext, HookHints) *EvaluationContext
      { return nil }\<close>
\<close>

definition UnimplementedHook_After ::
  "('v, 't, 'cm, 'pm, 'ec) HookContext \<Rightarrow> 'd \<Rightarrow> HookHints \<Rightarrow> 's
     \<Rightarrow> ('ec option \<times> 'e option) \<times> 's" where
  "UnimplementedHook_After hc details hh s = ((None, None), s)"

definition UnimplementedHook_Before ::
  "('v, 't, 'cm, 'pm, 'ec) HookContext \<Rightarrow> HookHints \<Rightarrow> 's
     \<Rightarrow> ('ec option \<times> 'e option) \<times> 's" where
  "UnimplementedHook_Before hc hh s = ((None, None), s)"

definition UnimplementedHook_Error ::
  "('v, 't, 'cm, 'pm, 'ec) HookContext \<Rightarrow> 'e option \<Rightarrow> HookHints \<Rightarrow> 's
     \<Rightarrow> 'ec option \<times> 's" where
  "UnimplementedHook_Error hc err hh s = (None, s)"

definition UnimplementedHook_Finally ::
  "('v, 't, 'cm, 'pm, 'ec) HookContext \<Rightarrow> HookHints \<Rightarrow> 's \<Rightarrow> 'ec option \<times> 's" where
  "UnimplementedHook_Finally hc hh s = (None, s)"

text \<open>\<^verbatim>\<open>var _ Hook = UnimplementedHook{}\<close>: the struct as a value of the interface.\<close>

definition UnimplementedHook :: "('v, 't, 'cm, 'pm, 'ec, 'd, 'e, 's) Hook" where
  "UnimplementedHook =
     \<lparr>Before = UnimplementedHook_Before, After = UnimplementedHook_After,
      Error = UnimplementedHook_Error, Finally = UnimplementedHook_Finally\<rparr>"

section \<open>The hook executor\<close>

text \<open>
  Modelled from the spec: merging a returned fragment into the running evaluation
  context (``merges each hook's evaluation-context delta into the running evaluation
  context''). No function of \<^verbatim>\<open>hooks.go\<close> calls a hook; the executor that does is described
  in section 4.4 of the specification only, and the merging logic is an external
  collaborator: the parameter \<open>mrg\<close>. A nil fragment leaves the context as it is.
\<close>

definition apply_delta ::
  "('ec \<Rightarrow> 'ec \<Rightarrow> 'ec) \<Rightarrow> ('v, 't, 'cm, 'pm, 'ec) HookContext \<Rightarrow> 'ec option
     \<Rightarrow> ('v, 't, 'cm, 'pm, 'ec) HookContext" where
  "apply_delta mrg hc d =
     (case d of None \<Rightarrow> hc
      | Some frag \<Rightarrow> hc\<lparr>evaluationContext := mrg (evaluationContext hc) frag\<rparr>)"

text \<open>
  Modelled from the spec: the stage \<open>BeforeRunning\<close> of the executor (section 4.4,
  transitions 1 and 2), which is not in \<^verbatim>\<open>hooks.go\<close>. It invokes \<open>Before\<close> on each hook in
  registration order and stops at the first failure, so that \<open>Before\<close> is not invoked on
  the hooks after the failing one. It returns the hooks whose \<open>Before\<close> was invoked (they
  are the ones eligible for \<open>Error\<close> and \<open>Finally\<close>), the merged context, the state the
  calls left, and the first error if there was one.
\<close>

fun run_before ::
  "('ec \<Rightarrow> 'ec \<Rightarrow> 'ec) \<Rightarrow> ('v, 't, 'cm, 'pm, 'ec, 'd, 'e, 's) Hook list
     \<Rightarrow> ('v, 't, 'cm, 'pm, 'ec) HookContext \<Rightarrow> HookHints \<Rightarrow> 's
     \<Rightarrow> ('v, 't, 'cm, 'pm, 'ec, 'd, 'e, 's) Hook list
         \<times> ('v, 't, 'cm, 'pm, 'ec) HookContext \<times> 's \<times> 'e option" where
  "run_before mrg [] hc hh s = ([], hc, s, None)"
| "run_before mrg (h # rest) hc hh s =
     (case Before h hc hh s of
        ((d, Some e), s1) \<Rightarrow> ([h], apply_delta mrg hc d, s1, Some e)
      | ((d, None), s1) \<Rightarrow>
          (case run_before mrg rest (apply_delta mrg hc d) hh s1 of
             (invoked, hc2, s2, r) \<Rightarrow> (h # invoked, hc2, s2, r)))"

text \<open>
  Modelled from the spec: the stage \<open>AfterRunning\<close> of the executor (section 4.4,
  transition 5), not in \<^verbatim>\<open>hooks.go\<close>. The caller passes the hooks already reversed. The
  specification leaves open whether the hooks after a failing \<open>After\<close> still run theirs;
  here the stage stops at the first failure, as \<open>BeforeRunning\<close> does.
\<close>

fun run_after ::
  "('ec \<Rightarrow> 'ec \<Rightarrow> 'ec) \<Rightarrow> ('v, 't, 'cm, 'pm, 'ec, 'd, 'e, 's) Hook list
     \<Rightarrow> ('v, 't, 'cm, 'pm, 'ec) HookContext \<Rightarrow> 'd \<Rightarrow> HookHints \<Rightarrow> 's
     \<Rightarrow> ('v, 't, 'cm, 'pm, 'ec) HookContext \<times> 's \<times> 'e option" where
  "run_after mrg [] hc det hh s = (hc, s, None)"
| "run_after mrg (h # rest) hc det hh s =
     (case After h hc det hh s of
        ((d, Some e), s1) \<Rightarrow> (apply_delta mrg hc d, s1, Some e)
      | ((d, None), s1) \<Rightarrow> run_after mrg rest (apply_delta mrg hc d) det hh s1)"

text \<open>
  Modelled from the spec: the stage \<open>ErrorRunning\<close> of the executor (section 4.4,
  transition 5), not in \<^verbatim>\<open>hooks.go\<close>: every hook handed to it has \<open>Error\<close> invoked with
  the triggering error. \<open>Error\<close> has no error return, so the stage always runs to the end.
\<close>

fun run_error ::
  "('ec \<Rightarrow> 'ec \<Rightarrow> 'ec) \<Rightarrow> ('v, 't, 'cm, 'pm, 'ec, 'd, 'e, 's) Hook list \<Rightarrow> 'e
     \<Rightarrow> ('v, 't, 'cm, 'pm, 'ec) HookContext \<Rightarrow> HookHints \<Rightarrow> 's
     \<Rightarrow> ('v, 't, 'cm, 'pm, 'ec) HookContext \<times> 's" where
  "run_error mrg [] e hc hh s = (hc, s)"
| "run_error mrg (h # rest) e hc hh s =
     (case Error h hc (Some e) hh s of
        (d, s1) \<Rightarrow> run_error mrg rest e (apply_delta mrg hc d) hh s1)"

text \<open>
  Modelled from the spec: the stage \<open>FinallyRunning\<close> of the executor (section 4.4,
  transition 6), not in \<^verbatim>\<open>hooks.go\<close>: every hook handed to it has \<open>Finally\<close> invoked.
\<close>

fun run_finally ::
  "('ec \<Rightarrow> 'ec \<Rightarrow> 'ec) \<Rightarrow> ('v, 't, 'cm, 'pm, 'ec, 'd, 'e, 's) Hook list
     \<Rightarrow> ('v, 't, 'cm, 'pm, 'ec) HookContext \<Rightarrow> HookHints \<Rightarrow> 's
     \<Rightarrow> ('v, 't, 'cm, 'pm, 'ec) HookContext \<times> 's" where
  "run_finally mrg [] hc hh s = (hc, s)"
| "run_finally mrg (h # rest) hc hh s =
     (case Finally h hc hh s of
        (d, s1) \<Rightarrow> run_finally mrg rest (apply_delta mrg hc d) hh s1)"

text \<open>
  Modelled from the spec: the path through \<open>ErrorRunning\<close> and \<open>FinallyRunning\<close> to \<open>Done\<close>
  (section 4.4, transitions 5 to 7; section 7), not in \<^verbatim>\<open>hooks.go\<close>. The hooks whose
  \<open>Before\<close> was invoked have \<open>Error\<close> and then \<open>Finally\<close> invoked in reverse registration
  order, and the triggering error is the terminal error.
\<close>

definition fail_path ::
  "('ec \<Rightarrow> 'ec \<Rightarrow> 'ec) \<Rightarrow> ('v, 't, 'cm, 'pm, 'ec, 'd, 'e, 's) Hook list \<Rightarrow> 'e
     \<Rightarrow> ('v, 't, 'cm, 'pm, 'ec) HookContext \<Rightarrow> HookHints \<Rightarrow> 's \<Rightarrow> ('e + 'd) \<times> 's" where
  "fail_path mrg invoked e hc hh s =
     (case run_error mrg (rev invoked) e hc hh s of
        (hc2, s2) \<Rightarrow>
          (case run_finally mrg (rev invoked) hc2 hh s2 of
             (hc3, s3) \<Rightarrow> (Inl e, s3)))"

text \<open>
  Modelled from the spec: the hook executor (section 4.4: \<open>Pending\<close>, \<open>BeforeRunning\<close>,
  \<open>Resolving\<close>, \<open>AfterRunning\<close> or \<open>ErrorRunning\<close>, \<open>FinallyRunning\<close>, \<open>Done\<close>), which is not
  in \<^verbatim>\<open>hooks.go\<close>. The resolution engine is the parameter \<open>resolve\<close>, with the signature of
  section 6; it is invoked only if every \<open>Before\<close> succeeded, with the merged context.
  A failing \<open>After\<close> is promoted to the terminal error and leads to \<open>ErrorRunning\<close>
  (sections 4.3 and 7). The result is the resolved details (\<open>Inr\<close>) or the terminal error
  (\<open>Inl\<close>), and the state that the calls made, one after the other, have left.
\<close>

definition evaluate ::
  "('ec \<Rightarrow> 'ec \<Rightarrow> 'ec)
     \<Rightarrow> (string \<Rightarrow> 't \<Rightarrow> 'v iface \<Rightarrow> 'ec \<Rightarrow> 's \<Rightarrow> ('d \<times> 'e option) \<times> 's)
     \<Rightarrow> ('v, 't, 'cm, 'pm, 'ec, 'd, 'e, 's) Hook list
     \<Rightarrow> ('v, 't, 'cm, 'pm, 'ec) HookContext \<Rightarrow> HookHints \<Rightarrow> 's \<Rightarrow> ('e + 'd) \<times> 's" where
  "evaluate mrg resolve hooks hc hh s =
     (case run_before mrg hooks hc hh s of
        (invoked, hc1, s1, Some e) \<Rightarrow> fail_path mrg invoked e hc1 hh s1
      | (invoked, hc1, s1, None) \<Rightarrow>
          (case resolve (FlagKey hc1) (FlagType hc1) (DefaultValue hc1) (EvaluationContext hc1) s1 of
             ((det, Some e), s2) \<Rightarrow> fail_path mrg invoked e hc1 hh s2
           | ((det, None), s2) \<Rightarrow>
               (case run_after mrg (rev invoked) hc1 det hh s2 of
                  (hc2, s3, Some e) \<Rightarrow> fail_path mrg invoked e hc2 hh s3
                | (hc2, s3, None) \<Rightarrow>
                    (case run_finally mrg (rev invoked) hc2 hh s3 of
                       (hc3, s4) \<Rightarrow> (Inr det, s4)))))"

section \<open>Invocation scripts\<close>

text \<open>
  Modelled from the spec: one invocation, as the testable properties of section 8 list
  them (``\<open>A.Before, B.Before, Resolve, B.After, A.After, B.Finally, A.Finally\<close>''). A call
  names the hook it is made on; \<open>After\<close> carries the evaluation details and \<open>Error\<close> the
  triggering error the hook is handed.
\<close>

datatype ('v, 't, 'cm, 'pm, 'ec, 'd, 'e, 's) call =
    DoBefore "('v, 't, 'cm, 'pm, 'ec, 'd, 'e, 's) Hook"
  | DoResolve
  | DoAfter 'd "('v, 't, 'cm, 'pm, 'ec, 'd, 'e, 's) Hook"
  | DoError 'e "('v, 't, 'cm, 'pm, 'ec, 'd, 'e, 's) Hook"
  | DoFinally "('v, 't, 'cm, 'pm, 'ec, 'd, 'e, 's) Hook"

text \<open>
  Modelled from the spec: making one call (section 4.3 for the hook operations,
  section 6 for \<open>Resolve\<close>) on the running context and the state. The method of the named
  hook, or the engine, is applied to the state; the fragment a hook returns is merged
  into the context. The outcome is what the call returned: the details (\<open>Resolve\<close> only)
  and the error, \<open>None\<close> when the call succeeded.
\<close>

fun do_call ::
  "('ec \<Rightarrow> 'ec \<Rightarrow> 'ec)
     \<Rightarrow> (string \<Rightarrow> 't \<Rightarrow> 'v iface \<Rightarrow> 'ec \<Rightarrow> 's \<Rightarrow> ('d \<times> 'e option) \<times> 's)
     \<Rightarrow> HookHints \<Rightarrow> ('v, 't, 'cm, 'pm, 'ec, 'd, 'e, 's) call
     \<Rightarrow> ('v, 't, 'cm, 'pm, 'ec) HookContext \<times> 's
     \<Rightarrow> ('d option \<times> 'e option) \<times> (('v, 't, 'cm, 'pm, 'ec) HookContext \<times> 's)" where
  "do_call mrg resolve hh (DoBefore h) (hc, s) =
     (case Before h hc hh s of ((d, err), s1) \<Rightarrow> ((None, err), (apply_delta mrg hc d, s1)))"
| "do_call mrg resolve hh DoResolve (hc, s) =
     (case resolve (FlagKey hc) (FlagType hc) (DefaultValue hc) (EvaluationContext hc) s of
        ((det, err), s1) \<Rightarrow> ((Some det, err), (hc, s1)))"
| "do_call mrg resolve hh (DoAfter det h) (hc, s) =
     (case After h hc det hh s of ((d, err), s1) \<Rightarrow> ((None, err), (apply_delta mrg hc d, s1)))"
| "do_call mrg resolve hh (DoError e h) (hc, s) =
     (case Error h hc (Some e) hh s of (d, s1) \<Rightarrow> ((None, None), (apply_delta mrg hc d, s1)))"
| "do_call mrg resolve hh (DoFinally h) (hc, s) =
     (case Finally h hc hh s of (d, s1) \<Rightarrow> ((None, None), (apply_delta mrg hc d, s1)))"

text \<open>
  Modelled from the spec: making the calls of a script one after the other, each on the
  context and state the one before it left (section 5: ``strictly sequential''). All calls
  of the script are made, whatever they return; the result is the outcomes in order and
  the final context and state.
\<close>

fun play ::
  "('ec \<Rightarrow> 'ec \<Rightarrow> 'ec)
     \<Rightarrow> (string \<Rightarrow> 't \<Rightarrow> 'v iface \<Rightarrow> 'ec \<Rightarrow> 's \<Rightarrow> ('d \<times> 'e option) \<times> 's)
     \<Rightarrow> HookHints \<Rightarrow> ('v, 't, 'cm, 'pm, 'ec, 'd, 'e, 's) call list
     \<Rightarrow> ('v, 't, 'cm, 'pm, 'ec) HookContext \<times> 's
     \<Rightarrow> ('d option \<times> 'e option) list \<times> (('v, 't, 'cm, 'pm, 'ec) HookContext \<times> 's)" where
  "play mrg resolve hh [] st = ([], st)"
| "play mrg resolve hh (c # cs) st =
     (case do_call mrg resolve hh c st of
        (out, st1) \<Rightarrow>
          (case play mrg resolve hh cs st1 of (outs, st2) \<Rightarrow> (out # outs, st2)))"

section \<open>Concrete inputs\<close>

text \<open>
  A store whose table at address 0 is \<^verbatim>\<open>map[string]interface{}{"color": 1}\<close>, all
  other tables empty, and the store after the caller's \<^verbatim>\<open>m["color"] = 2\<close>.
\<close>

definition store_color :: "int mapstore" where
  "store_color = (\<lambda>a. Map.empty)(0 := [''color'' \<mapsto> IVal 1])"

definition store_recolored :: "int mapstore" where
  "store_recolored = store_color(0 := (store_color 0)(''color'' \<mapsto> IVal 2))"

text \<open>The store after \<^verbatim>\<open>m["size"] = nil\<close>: the key is present and holds the nil interface.\<close>

definition store_nil_size :: "int mapstore" where
  "store_nil_size = store_color(0 := (store_color 0)(''size'' \<mapsto> INil))"

text \<open>
  Hooks that keep a journal: the state is the list of the calls made so far, and each
  method appends its own entry, \<open>Error\<close> with the error it was handed. \<open>failing_hook\<close>
  overrides \<open>Before\<close> to fail with the error \<open>E\<close> after writing its entry.
\<close>

definition journal_hook ::
  "string \<Rightarrow> (int, unit, unit, unit, nat, string, string, string list) Hook" where
  "journal_hook name =
     \<lparr>Before = (\<lambda>hc hh s. ((None, None), s @ [name @ ''.Before''])),
      After = (\<lambda>hc det hh s. ((None, None), s @ [name @ ''.After''])),
      Error = (\<lambda>hc err hh s.
                 (None, s @ [name @ ''.Error('' @ (case err of None \<Rightarrow> ''nil'' | Some e \<Rightarrow> e) @ '')''])),
      Finally = (\<lambda>hc hh s. (None, s @ [name @ ''.Finally'']))\<rparr>"

definition failing_hook ::
  "string \<Rightarrow> (int, unit, unit, unit, nat, string, string, string list) Hook" where
  "failing_hook name =
     (journal_hook name)\<lparr>Before := \<lambda>hc hh s. ((None, Some ''E''), s @ [name @ ''.Before''])\<rparr>"

definition ctx0 :: "(int, unit, unit, unit, nat) HookContext" where
  "ctx0 = NewHookContext ''flag'' () (IVal 7) () () 0"

text \<open>
  A merge in which the fragment replaces the running context, and two engines that write
  their entry in the journal: one resolves to \<open>on\<close>, the other fails with the error \<open>R\<close>.
\<close>

definition take_fragment :: "nat \<Rightarrow> nat \<Rightarrow> nat" where
  "take_fragment running frag = frag"

definition resolve_ok ::
  "string \<Rightarrow> unit \<Rightarrow> int iface \<Rightarrow> nat \<Rightarrow> string list
     \<Rightarrow> (string \<times> string option) \<times> string list" where
  "resolve_ok fk ft dv ec s = ((''on'', None), s @ [''Resolve''])"

definition resolve_fail ::
  "string \<Rightarrow> unit \<Rightarrow> int iface \<Rightarrow> nat \<Rightarrow> string list
     \<Rightarrow> (string \<times> string option) \<times> string list" where
  "resolve_fail fk ft dv ec s = ((''off'', Some ''R''), s @ [''Resolve''])"

section \<open>HookHints: lookups and the shared map\<close>

lemma Value_NewHookHints:
  "Value (NewHookHints m) key s
   = ((case map_entry s m key of None \<Rightarrow> INil | Some v \<Rightarrow> v), s)"
  by (simp add: Value_def NewHookHints_def map_index_def)

text \<open>
  C1, as stated, fails. The caller builds \<^verbatim>\<open>m := map[string]interface{}{"color": 1}\<close>
  (address 0 of \<open>store_color\<close>) and \<^verbatim>\<open>h := NewHookHints(m)\<close>; \<^verbatim>\<open>h.Value("color")\<close> is 1.
  After the caller's \<^verbatim>\<open>m["color"] = 2\<close> the same \<open>h\<close> answers 2: the constructor kept the
  reference and made no copy.
\<close>

theorem hints_mutation_counterexample:
  "fst (Value (NewHookHints (MapAddr 0)) ''color'' store_color) = IVal 1 \<and>
   map_assign store_color (MapAddr 0) ''color'' (IVal 2) = Inr store_recolored \<and>
   fst (Value (NewHookHints (MapAddr 0)) ''color'' store_recolored) = IVal 2 \<and>
   fst (Value (NewHookHints (MapAddr 0)) ''color'' store_recolored)
     \<noteq> fst (Value (NewHookHints (MapAddr 0)) ''color'' store_color)"
  by (simp add: Value_NewHookHints store_color_def store_recolored_def)

text \<open>
  C1, amended: \<open>NewHookHints\<close> keeps the map it is given by reference. For a HookHints
  value built from the map \<open>m\<close>, a later write \<^verbatim>\<open>r[k] = v\<close> makes \<open>Value(k)\<close> return \<open>v\<close> when
  \<open>r\<close> is the map \<open>m\<close>, and a later \<^verbatim>\<open>delete(r, k)\<close> makes it return the nil sentinel; the
  result for every other key, and for a HookHints value built from another map, is what it
  was before the mutation.
\<close>

theorem hints_follow_shared_map:
  "(map_assign s r k v = Inr s' \<longrightarrow>
      fst (Value (NewHookHints m) key s')
        = (if m = r \<and> key = k then v else fst (Value (NewHookHints m) key s))) \<and>
   fst (Value (NewHookHints m) key (map_delete s r k))
     = (if m = r \<and> key = k then INil else fst (Value (NewHookHints m) key s))"
proof (cases r)
  case NilMap
  then show ?thesis by (cases m) (simp_all add: Value_NewHookHints)
next
  case (MapAddr a)
  then show ?thesis by (cases m) (auto simp: Value_NewHookHints)
qed

theorem hints_follow_shared_map_witness:
  "map_assign store_color (MapAddr 0) ''color'' (IVal 2) = Inr store_recolored \<and>
   fst (Value (NewHookHints (MapAddr 0)) ''color'' store_recolored) = IVal 2 \<and>
   fst (Value (NewHookHints (MapAddr 0)) ''color'' (map_delete store_color (MapAddr 0) ''color''))
     = INil"
proof -
  have w: "map_assign store_color (MapAddr 0) ''color'' (IVal 2) = Inr store_recolored"
    by (simp add: store_recolored_def)
  from hints_follow_shared_map
    [of store_color "MapAddr 0" "''color''" "IVal 2" store_recolored "MapAddr 0" "''color''"] w
  show ?thesis by simp
qed

text \<open>
  C5, as stated, fails, for the reason C1 does. The caller builds
  \<^verbatim>\<open>m := map[string]interface{}{"color": 1}\<close> and \<^verbatim>\<open>h := NewHookHints(m)\<close>, so 1 is the value
  stored under \<^verbatim>\<open>"color"\<close> at construction, and \<^verbatim>\<open>h.Value("color")\<close> is 1. After the caller's
  \<^verbatim>\<open>delete(m, "color")\<close> the repeated call \<^verbatim>\<open>h.Value("color")\<close> returns the nil sentinel.
\<close>

theorem hints_value_counterexample:
  "map_entry store_color (MapAddr 0) ''color'' = Some (IVal 1) \<and>
   fst (Value (NewHookHints (MapAddr 0)) ''color'' store_color) = IVal 1 \<and>
   fst (Value (NewHookHints (MapAddr 0)) ''color''
         (map_delete store_color (MapAddr 0) ''color'')) = INil"
  by (simp add: Value_NewHookHints store_color_def)

text \<open>
  C5, amended: let \<open>s\<close> be the store when \<open>h\<close> is built from the map \<open>m\<close> and \<open>s'\<close> the store
  when \<open>h.Value(k)\<close> is called. If \<open>m\<close> holds under \<open>k\<close> in \<open>s'\<close> what it held at construction,
  the call returns the value stored under \<open>k\<close> at construction, and the nil sentinel when
  nothing was stored under \<open>k\<close> (or \<open>m\<close> is nil). The call leaves the store as it was, so
  calling it again with the same key, with no mutation in between, returns the same
  result.
\<close>

theorem hints_value_lookup:
  assumes "map_entry s' m k = map_entry s m k"
  shows "fst (Value (NewHookHints m) k s')
           = (case map_entry s m k of Some v \<Rightarrow> v | None \<Rightarrow> INil) \<and>
         snd (Value (NewHookHints m) k s') = s' \<and>
         Value (NewHookHints m) k (snd (Value (NewHookHints m) k s'))
           = Value (NewHookHints m) k s'"
  using assms by (simp add: Value_NewHookHints)

theorem hints_value_lookup_witness:
  "map_entry store_nil_size (MapAddr 0) ''color'' = map_entry store_color (MapAddr 0) ''color'' \<and>
   fst (Value (NewHookHints (MapAddr 0)) ''color'' store_nil_size) = IVal 1 \<and>
   snd (Value (NewHookHints (MapAddr 0)) ''color'' store_nil_size) = store_nil_size \<and>
   Value (NewHookHints (MapAddr 0)) ''color''
       (snd (Value (NewHookHints (MapAddr 0)) ''color'' store_nil_size))
     = Value (NewHookHints (MapAddr 0)) ''color'' store_nil_size"
proof -
  have same: "map_entry store_nil_size (MapAddr 0) ''color''
              = map_entry store_color (MapAddr 0) ''color''"
    by (simp add: store_nil_size_def)
  have stored: "map_entry store_color (MapAddr 0) ''color'' = Some (IVal 1)"
    by (simp add: store_color_def)
  from hints_value_lookup [OF same] stored same show ?thesis
    by simp
qed

text \<open>
  C9: \<open>NewHookHints\<close> accepts the nil map, and on the HookHints value built from it
  \<open>Value(k)\<close> returns the nil sentinel for every key \<open>k\<close>; indexing a nil map is defined in
  Go and the call has no failing branch.
\<close>

theorem hints_nil_map_value:
  "Value (NewHookHints NilMap) k s = (INil, s)"
  by (simp add: Value_NewHookHints)

text \<open>
  C10: a key stored with the nil value and an absent key look the same through \<open>Value\<close>.
  Let \<open>s1\<close> be the store after the caller's \<^verbatim>\<open>m[k] = nil\<close>, where the key is present, and
  compare it with the store after \<^verbatim>\<open>delete(m, k)\<close>, where it is absent: \<open>Value(k)\<close> on a
  HookHints value built from \<open>m\<close> returns the nil sentinel in both, and every HookHints
  value \<open>h\<close> and every key get the same result from \<open>Value\<close> in both.
\<close>

theorem hints_nil_value_like_absent:
  assumes "map_assign s m k INil = Inr s1"
  shows "map_entry s1 m k = Some INil \<and>
         map_entry (map_delete s m k) m k = None \<and>
         fst (Value (NewHookHints m) k s1) = INil \<and>
         fst (Value (NewHookHints m) k (map_delete s m k)) = INil \<and>
         fst (Value h key s1) = fst (Value h key (map_delete s m k))"
proof (cases m)
  case NilMap
  with assms show ?thesis by simp
next
  case (MapAddr a)
  with assms have s1: "s1 = s(a := (s a)(k \<mapsto> INil))"
    by auto
  have "fst (Value h key s1) = fst (Value h key (map_delete s m k))"
    using MapAddr s1 by (cases "mapOfHints h") (auto simp: Value_def map_index_def)
  then show ?thesis
    using MapAddr s1 by (simp add: Value_NewHookHints)
qed

theorem hints_nil_value_like_absent_witness:
  "map_assign store_color (MapAddr 0) ''size'' INil = Inr store_nil_size \<and>
   fst (Value (NewHookHints (MapAddr 0)) ''size'' store_nil_size) = INil \<and>
   fst (Value (NewHookHints (MapAddr 0)) ''size'' (map_delete store_color (MapAddr 0) ''size''))
     = INil"
proof -
  have w: "map_assign store_color (MapAddr 0) ''size'' INil = Inr store_nil_size"
    by (simp add: store_nil_size_def)
  from hints_nil_value_like_absent [OF w, of "NewHookHints (MapAddr 0)" "''size''"] w
  show ?thesis by simp
qed

section \<open>HookContext: construction and access\<close>

text \<open>
  C6: each of the six accessors, applied to the HookContext that \<open>NewHookContext\<close> builds,
  returns the argument the constructor was given for that field. The accessors have value
  receivers and their bodies only read a field: each is a function of the HookContext
  alone, and the HookContext it was applied to is the same value afterwards.
\<close>

theorem hook_context_round_trip:
  "FlagKey (NewHookContext fk ft dv cm pm ec) = fk \<and>
   FlagType (NewHookContext fk ft dv cm pm ec) = ft \<and>
   DefaultValue (NewHookContext fk ft dv cm pm ec) = dv \<and>
   ClientMetadata (NewHookContext fk ft dv cm pm ec) = cm \<and>
   ProviderMetadata (NewHookContext fk ft dv cm pm ec) = pm \<and>
   EvaluationContext (NewHookContext fk ft dv cm pm ec) = ec"
  by (simp add: NewHookContext_def FlagKey_def FlagType_def DefaultValue_def
      ClientMetadata_def ProviderMetadata_def EvaluationContext_def)

text \<open>
  C7: \<open>h.Context()\<close> is \<open>h.EvaluationContext().Context()\<close>, whatever the method \<open>Context\<close> of
  the evaluation context is; for a HookContext built by \<open>NewHookContext\<close> it is the handle
  of the evaluation context the constructor was given.
\<close>

theorem hook_context_go_context:
  "Context ec_Context h = ec_Context (EvaluationContext h) \<and>
   Context ec_Context (NewHookContext fk ft dv cm pm ec) = ec_Context ec"
  by (simp add: Context_def EvaluationContext_def NewHookContext_def)

section \<open>UnimplementedHook\<close>

text \<open>
  C8: for all arguments, \<open>Before\<close> and \<open>After\<close> of \<open>UnimplementedHook\<close> return a nil
  fragment and a nil error, \<open>Error\<close> and \<open>Finally\<close> return a nil fragment, and each leaves
  the state as it found it.
\<close>

theorem unimplemented_hook_is_noop:
  "Before UnimplementedHook hc hh s = ((None, None), s) \<and>
   After UnimplementedHook hc details hh s = ((None, None), s) \<and>
   Error UnimplementedHook hc err hh s = (None, s) \<and>
   Finally UnimplementedHook hc hh s = (None, s)"
  by (simp add: UnimplementedHook_def UnimplementedHook_Before_def UnimplementedHook_After_def
      UnimplementedHook_Error_def UnimplementedHook_Finally_def)


section \<open>The executor: order of the calls\<close>

text \<open>Playing a script piece by piece.\<close>

lemma play_append:
  "play mrg r hh (xs @ ys) st =
     (case play mrg r hh xs st of
        (o1, st1) \<Rightarrow> (case play mrg r hh ys st1 of (o2, st2) \<Rightarrow> (o1 @ o2, st2)))"
  by (induction xs arbitrary: st) (auto split: prod.splits)

lemma length_play:
  "play mrg r hh cs st = (outs, st') \<Longrightarrow> length outs = length cs"
  by (induction cs arbitrary: st outs) (auto split: prod.splits)

text \<open>
  Each stage of the executor against the script of its calls: the stage makes these calls
  on these hooks, in this order, and leaves the context and state the script leaves.
\<close>

lemma run_before_all:
  "play mrg r hh (map DoBefore hs) (hc, s) = (outs, (hc1, s1))
   \<Longrightarrow> \<forall>out\<in>set outs. snd out = None
   \<Longrightarrow> run_before mrg hs hc hh s = (hs, hc1, s1, None)"
proof (induction hs arbitrary: hc s outs)
  case Nil
  then show ?case by simp
next
  case (Cons h hs)
  obtain d err sa where B: "Before h hc hh s = ((d, err), sa)"
    by (cases "Before h hc hh s") auto
  obtain os st2 where R: "play mrg r hh (map DoBefore hs) (apply_delta mrg hc d, sa) = (os, st2)"
    by (cases "play mrg r hh (map DoBefore hs) (apply_delta mrg hc d, sa)") auto
  from Cons.prems(1) B R have eqs: "outs = (None, err) # os" "st2 = (hc1, s1)"
    by simp_all
  with Cons.prems(2) have err: "err = None" and os: "\<forall>out\<in>set os. snd out = None"
    by simp_all
  from Cons.IH [OF R [unfolded eqs(2)] os]
  have "run_before mrg hs (apply_delta mrg hc d) hh sa = (hs, hc1, s1, None)" .
  with B err show ?case by simp
qed

lemma run_before_upto:
  "play mrg r hh (map DoBefore pre) (hc, s) = (outs, (hc1, s1))
   \<Longrightarrow> \<forall>out\<in>set outs. snd out = None
   \<Longrightarrow> do_call mrg r hh (DoBefore h) (hc1, s1) = ((x, Some E), (hc2, s2))
   \<Longrightarrow> run_before mrg (pre @ h # later) hc hh s = (pre @ [h], hc2, s2, Some E)"
proof (induction pre arbitrary: hc s outs)
  case Nil
  then show ?case by (auto split: prod.splits)
next
  case (Cons p pre)
  obtain d err sa where B: "Before p hc hh s = ((d, err), sa)"
    by (cases "Before p hc hh s") auto
  obtain os st2 where R: "play mrg r hh (map DoBefore pre) (apply_delta mrg hc d, sa) = (os, st2)"
    by (cases "play mrg r hh (map DoBefore pre) (apply_delta mrg hc d, sa)") auto
  from Cons.prems(1) B R have eqs: "outs = (None, err) # os" "st2 = (hc1, s1)"
    by simp_all
  with Cons.prems(2) have err: "err = None" and os: "\<forall>out\<in>set os. snd out = None"
    by simp_all
  from Cons.IH [OF R [unfolded eqs(2)] os Cons.prems(3)]
  have "run_before mrg (pre @ h # later) (apply_delta mrg hc d) hh sa
        = (pre @ [h], hc2, s2, Some E)" .
  with B err show ?case by simp
qed

lemma run_after_all:
  "play mrg r hh (map (DoAfter det) hs) (hc, s) = (outs, (hc1, s1))
   \<Longrightarrow> \<forall>out\<in>set outs. snd out = None
   \<Longrightarrow> run_after mrg hs hc det hh s = (hc1, s1, None)"
proof (induction hs arbitrary: hc s outs)
  case Nil
  then show ?case by simp
next
  case (Cons h hs)
  obtain d err sa where B: "After h hc det hh s = ((d, err), sa)"
    by (cases "After h hc det hh s") auto
  obtain os st2 where
    R: "play mrg r hh (map (DoAfter det) hs) (apply_delta mrg hc d, sa) = (os, st2)"
    by (cases "play mrg r hh (map (DoAfter det) hs) (apply_delta mrg hc d, sa)") auto
  from Cons.prems(1) B R have eqs: "outs = (None, err) # os" "st2 = (hc1, s1)"
    by simp_all
  with Cons.prems(2) have err: "err = None" and os: "\<forall>out\<in>set os. snd out = None"
    by simp_all
  from Cons.IH [OF R [unfolded eqs(2)] os]
  have "run_after mrg hs (apply_delta mrg hc d) det hh sa = (hc1, s1, None)" .
  with B err show ?case by simp
qed

lemma run_error_all:
  "play mrg r hh (map (DoError e) hs) (hc, s) = (outs, st)
   \<Longrightarrow> run_error mrg hs e hc hh s = st"
  by (induction hs arbitrary: hc s outs) (auto split: prod.splits)

lemma run_finally_all:
  "play mrg r hh (map DoFinally hs) (hc, s) = (outs, st)
   \<Longrightarrow> run_finally mrg hs hc hh s = st"
  by (induction hs arbitrary: hc s outs) (auto split: prod.splits)

lemma fail_path_script:
  assumes "play mrg r hh (map (DoError e) (rev invoked) @ map DoFinally (rev invoked)) (hc, s)
           = (outs, (hc', s'))"
  shows "fail_path mrg invoked e hc hh s = (Inl e, s')"
proof -
  obtain oe hc2 s2 where E: "play mrg r hh (map (DoError e) (rev invoked)) (hc, s) = (oe, (hc2, s2))"
    by (cases "play mrg r hh (map (DoError e) (rev invoked)) (hc, s)") auto
  obtain ofin st3 where F: "play mrg r hh (map DoFinally (rev invoked)) (hc2, s2) = (ofin, st3)"
    by (cases "play mrg r hh (map DoFinally (rev invoked)) (hc2, s2)") auto
  from assms E F have st3: "st3 = (hc', s')"
    by (simp add: play_append)
  from run_error_all [OF E] run_finally_all [OF F] st3 show ?thesis
    by (simp add: fail_path_def)
qed

text \<open>A script with no \<open>After\<close> call does not depend on what the hooks' \<open>After\<close> is.\<close>

lemma play_before_any_after:
  "play mrg r hh (map DoBefore (map (\<lambda>h. h\<lparr>After := aft h\<rparr>) hs)) st
   = play mrg r hh (map DoBefore hs) st"
  by (induction hs arbitrary: st) (auto split: prod.splits)

lemma play_error_any_after:
  "play mrg r hh (map (DoError e) (map (\<lambda>h. h\<lparr>After := aft h\<rparr>) hs)) st
   = play mrg r hh (map (DoError e) hs) st"
  by (induction hs arbitrary: st) (auto split: prod.splits)

lemma play_finally_any_after:
  "play mrg r hh (map DoFinally (map (\<lambda>h. h\<lparr>After := aft h\<rparr>) hs)) st
   = play mrg r hh (map DoFinally hs) st"
  by (induction hs arbitrary: st) (auto split: prod.splits)

lemma resolve_failure_script:
  assumes P: "play mrg resolve hh
                (map DoBefore hooks @ [DoResolve] @ map (DoError E) (rev hooks)
                   @ map DoFinally (rev hooks)) (hc, s) = (outs, (hc', s'))"
    and ok: "\<forall>out\<in>set (take (length hooks) outs). snd out = None"
    and fail: "snd (outs ! length hooks) = Some E"
  shows "evaluate mrg resolve hooks hc hh s = (Inl E, s')"
proof -
  obtain ob hc1 s1 where B: "play mrg resolve hh (map DoBefore hooks) (hc, s) = (ob, (hc1, s1))"
    by (cases "play mrg resolve hh (map DoBefore hooks) (hc, s)") auto
  obtain det err s2 where
    R: "resolve (FlagKey hc1) (FlagType hc1) (DefaultValue hc1) (EvaluationContext hc1) s1
        = ((det, err), s2)"
    by (cases "resolve (FlagKey hc1) (FlagType hc1) (DefaultValue hc1) (EvaluationContext hc1) s1")
      auto
  obtain orest st3 where
    T: "play mrg resolve hh (map (DoError E) (rev hooks) @ map DoFinally (rev hooks)) (hc1, s2)
        = (orest, st3)"
    by (cases "play mrg resolve hh (map (DoError E) (rev hooks) @ map DoFinally (rev hooks))
                 (hc1, s2)") auto
  have lob: "length ob = length hooks"
    using length_play [OF B] by simp
  from P B R T have outs: "outs = ob @ (Some det, err) # orest" and st3: "st3 = (hc', s')"
    by (simp_all add: play_append)
  from outs lob ok have obok: "\<forall>out\<in>set ob. snd out = None"
    by simp
  from outs lob fail have err: "err = Some E"
    by (simp add: nth_append)
  from run_before_all [OF B obok] R err fail_path_script [OF T [unfolded st3]]
  show ?thesis
    by (simp add: evaluate_def)
qed

text \<open>
  C2: take the script that invokes \<open>Before\<close> on the hooks in registration order, then
  \<open>Resolve\<close> once, then \<open>After\<close> on the hooks in reverse registration order, then \<open>Finally\<close>
  on the hooks in reverse registration order. If no call of it returns an error (every
  \<open>Before\<close> and \<open>After\<close> succeeds and so does the resolution, which returns \<open>det\<close>), then
  the executor returns \<open>det\<close> and leaves the state that these calls, made on these hooks
  in this order, leave. For hooks \<open>[A, B]\<close> the script is \<open>A.Before, B.Before, Resolve,
  B.After, A.After, B.Finally, A.Finally\<close>.
\<close>

theorem executor_success_order:
  assumes P: "play mrg resolve hh
                (map DoBefore hooks @ [DoResolve] @ map (DoAfter det) (rev hooks)
                   @ map DoFinally (rev hooks)) (hc, s) = (outs, (hc', s'))"
    and ok: "\<forall>out\<in>set outs. snd out = None"
    and det: "fst (outs ! length hooks) = Some det"
  shows "evaluate mrg resolve hooks hc hh s = (Inr det, s')"
proof -
  obtain ob hc1 s1 where B: "play mrg resolve hh (map DoBefore hooks) (hc, s) = (ob, (hc1, s1))"
    by (cases "play mrg resolve hh (map DoBefore hooks) (hc, s)") auto
  obtain det' err s2 where
    R: "resolve (FlagKey hc1) (FlagType hc1) (DefaultValue hc1) (EvaluationContext hc1) s1
        = ((det', err), s2)"
    by (cases "resolve (FlagKey hc1) (FlagType hc1) (DefaultValue hc1) (EvaluationContext hc1) s1")
      auto
  obtain oa hc2 s3 where
    A: "play mrg resolve hh (map (DoAfter det) (rev hooks)) (hc1, s2) = (oa, (hc2, s3))"
    by (cases "play mrg resolve hh (map (DoAfter det) (rev hooks)) (hc1, s2)") auto
  obtain ofin st4 where
    F: "play mrg resolve hh (map DoFinally (rev hooks)) (hc2, s3) = (ofin, st4)"
    by (cases "play mrg resolve hh (map DoFinally (rev hooks)) (hc2, s3)") auto
  have lob: "length ob = length hooks"
    using length_play [OF B] by simp
  from P B R A F have outs: "outs = ob @ (Some det', err) # oa @ ofin" and st4: "st4 = (hc', s')"
    by (simp_all add: play_append)
  from outs ok have obok: "\<forall>out\<in>set ob. snd out = None"
    and err: "err = None" and oaok: "\<forall>out\<in>set oa. snd out = None"
    by simp_all
  from outs lob det have det': "det' = det"
    by (simp add: nth_append)
  from run_before_all [OF B obok] R err det' run_after_all [OF A oaok]
    run_finally_all [OF F] st4
  show ?thesis
    by (simp add: evaluate_def)
qed

theorem executor_success_order_witness:
  "evaluate take_fragment resolve_ok [journal_hook ''A'', journal_hook ''B''] ctx0
     (NewHookHints NilMap) []
   = (Inr ''on'', [''A.Before'', ''B.Before'', ''Resolve'', ''B.After'', ''A.After'',
                   ''B.Finally'', ''A.Finally''])"
proof -
  have P: "play take_fragment resolve_ok (NewHookHints NilMap)
             (map DoBefore [journal_hook ''A'', journal_hook ''B''] @ [DoResolve]
                @ map (DoAfter ''on'') (rev [journal_hook ''A'', journal_hook ''B''])
                @ map DoFinally (rev [journal_hook ''A'', journal_hook ''B''])) (ctx0, [])
           = ([(None, None), (None, None), (Some ''on'', None), (None, None), (None, None),
               (None, None), (None, None)],
              (ctx0, [''A.Before'', ''B.Before'', ''Resolve'', ''B.After'', ''A.After'',
                      ''B.Finally'', ''A.Finally'']))"
    by (simp add: journal_hook_def resolve_ok_def apply_delta_def)
  have ok: "\<forall>out\<in>set [(None, None), (None, None), (Some ''on'', None), (None, None),
                       (None, None), (None, None), (None :: string option, None :: string option)].
              snd out = None"
    by simp
  have det: "fst ([(None, None), (None, None), (Some ''on'', None), (None, None), (None, None),
                   (None, None), (None :: string option, None :: string option)]
                  ! length [journal_hook ''A'', journal_hook ''B'']) = Some ''on''"
    by simp
  show ?thesis
    by (rule executor_success_order [OF P ok det])
qed

text \<open>
  C3: let the hooks be \<open>pre\<close>, then \<open>h\<close>, then \<open>later\<close>. Take the script that invokes
  \<open>Before\<close> on \<open>pre\<close> in registration order and on \<open>h\<close>, then \<open>Error\<close> with \<open>E\<close> on \<open>h\<close> and
  \<open>pre\<close> in reverse registration order, then \<open>Finally\<close> on \<open>h\<close> and \<open>pre\<close> in reverse
  registration order. If in it the \<open>Before\<close> calls on \<open>pre\<close> succeed and the one on \<open>h\<close>
  fails with \<open>E\<close>, then the executor returns the error \<open>E\<close> and leaves the state that
  these calls, made on these hooks in this order, leave. The script holds no call on a
  hook of \<open>later\<close> and no \<open>Resolve\<close>, and the result is the same whatever \<open>later\<close> and the
  engine \<open>resolve\<close> are: none of them is invoked.
\<close>

theorem executor_before_failure:
  assumes P: "play mrg resolve' hh
                (map DoBefore pre @ [DoBefore h] @ map (DoError E) (rev (pre @ [h]))
                   @ map DoFinally (rev (pre @ [h]))) (hc, s) = (outs, (hc', s'))"
    and ok: "\<forall>out\<in>set (take (length pre) outs). snd out = None"
    and fail: "snd (outs ! length pre) = Some E"
  shows "evaluate mrg resolve (pre @ h # later) hc hh s = (Inl E, s')"
proof -
  obtain ob hc1 s1 where B: "play mrg resolve' hh (map DoBefore pre) (hc, s) = (ob, (hc1, s1))"
    by (cases "play mrg resolve' hh (map DoBefore pre) (hc, s)") auto
  obtain x err hc2 s2 where
    D: "do_call mrg resolve' hh (DoBefore h) (hc1, s1) = ((x, err), (hc2, s2))"
    by (cases "do_call mrg resolve' hh (DoBefore h) (hc1, s1)") auto
  obtain orest st3 where
    T: "play mrg resolve' hh
          (map (DoError E) (rev (pre @ [h])) @ map DoFinally (rev (pre @ [h]))) (hc2, s2)
        = (orest, st3)"
    by (cases "play mrg resolve' hh
                 (map (DoError E) (rev (pre @ [h])) @ map DoFinally (rev (pre @ [h]))) (hc2, s2)")
      auto
  have lob: "length ob = length pre"
    using length_play [OF B] by simp
  have "play mrg resolve' hh
          (map DoBefore pre @ [DoBefore h] @ map (DoError E) (rev (pre @ [h]))
             @ map DoFinally (rev (pre @ [h]))) (hc, s)
        = (ob @ (x, err) # orest, st3)"
    using B D T by (simp only: play_append play.simps prod.case append.simps)
  with P have outs: "outs = ob @ (x, err) # orest" and st3: "st3 = (hc', s')"
    by simp_all
  from outs lob ok have obok: "\<forall>out\<in>set ob. snd out = None"
    by simp
  from outs lob fail have err: "err = Some E"
    by (simp add: nth_append)
  from run_before_upto [OF B obok D [unfolded err]]
  have "run_before mrg (pre @ h # later) hc hh s = (pre @ [h], hc2, s2, Some E)" .
  with fail_path_script [OF T [unfolded st3]] show ?thesis
    by (simp add: evaluate_def)
qed

theorem executor_before_failure_witness:
  "evaluate take_fragment resolve_ok
     ([journal_hook ''A''] @ failing_hook ''B'' # [journal_hook ''C'']) ctx0
     (NewHookHints NilMap) []
   = (Inl ''E'', [''A.Before'', ''B.Before'', ''B.Error(E)'', ''A.Error(E)'',
                  ''B.Finally'', ''A.Finally''])"
proof -
  have P: "play take_fragment resolve_fail (NewHookHints NilMap)
             (map DoBefore [journal_hook ''A''] @ [DoBefore (failing_hook ''B'')]
                @ map (DoError ''E'') (rev ([journal_hook ''A''] @ [failing_hook ''B'']))
                @ map DoFinally (rev ([journal_hook ''A''] @ [failing_hook ''B'']))) (ctx0, [])
           = ([(None, None), (None, Some ''E''), (None, None), (None, None), (None, None),
               (None, None)],
              (ctx0, [''A.Before'', ''B.Before'', ''B.Error(E)'', ''A.Error(E)'',
                      ''B.Finally'', ''A.Finally'']))"
    by (simp add: journal_hook_def failing_hook_def apply_delta_def)
  have ok: "\<forall>out\<in>set (take (length [journal_hook ''A''])
                         [(None, None), (None, Some ''E''), (None, None), (None, None),
                          (None, None), (None :: string option, None)]).
              snd out = None"
    by simp
  have fail: "snd ([(None, None), (None, Some ''E''), (None, None), (None, None),
                    (None, None), (None :: string option, None)]
                   ! length [journal_hook ''A'']) = Some ''E''"
    by simp
  show ?thesis
    by (rule executor_before_failure [OF P ok fail])
qed

text \<open>
  C4: take the script that invokes \<open>Before\<close> on the hooks in registration order, then
  \<open>Resolve\<close>, then \<open>Error\<close> with \<open>E\<close> on the hooks in reverse registration order, then
  \<open>Finally\<close> on the hooks in reverse registration order. If in it every \<open>Before\<close> call
  succeeds and the \<open>Resolve\<close> call fails with \<open>E\<close>, then the executor returns the error \<open>E\<close>
  and leaves the state that these calls, made on these hooks in this order, leave. The
  script holds no \<open>After\<close> call, and the result is the same whatever the \<open>After\<close> method of
  each hook is: \<open>After\<close> is invoked on no hook.
\<close>

theorem executor_resolve_failure:
  assumes P: "play mrg resolve hh
                (map DoBefore hooks @ [DoResolve] @ map (DoError E) (rev hooks)
                   @ map DoFinally (rev hooks)) (hc, s) = (outs, (hc', s'))"
    and ok: "\<forall>out\<in>set (take (length hooks) outs). snd out = None"
    and fail: "snd (outs ! length hooks) = Some E"
  shows "evaluate mrg resolve hooks hc hh s = (Inl E, s') \<and>
         evaluate mrg resolve (map (\<lambda>h. h\<lparr>After := aft h\<rparr>) hooks) hc hh s = (Inl E, s')"
proof
  show "evaluate mrg resolve hooks hc hh s = (Inl E, s')"
    by (rule resolve_failure_script [OF P ok fail])
next
  let ?hooks' = "map (\<lambda>h. h\<lparr>After := aft h\<rparr>) hooks"
  have "play mrg resolve hh
          (map DoBefore ?hooks' @ [DoResolve] @ map (DoError E) (rev ?hooks')
             @ map DoFinally (rev ?hooks')) (hc, s)
        = play mrg resolve hh
          (map DoBefore hooks @ [DoResolve] @ map (DoError E) (rev hooks)
             @ map DoFinally (rev hooks)) (hc, s)"
    by (simp only: play_append rev_map play_before_any_after play_error_any_after
        play_finally_any_after)
  with P have P': "play mrg resolve hh
          (map DoBefore ?hooks' @ [DoResolve] @ map (DoError E) (rev ?hooks')
             @ map DoFinally (rev ?hooks')) (hc, s) = (outs, (hc', s'))"
    by simp
  have ok': "\<forall>out\<in>set (take (length ?hooks') outs). snd out = None"
    using ok by simp
  have fail': "snd (outs ! length ?hooks') = Some E"
    using fail by simp
  show "evaluate mrg resolve ?hooks' hc hh s = (Inl E, s')"
    by (rule resolve_failure_script [OF P' ok' fail'])
qed

theorem executor_resolve_failure_witness:
  "evaluate take_fragment resolve_fail [journal_hook ''A'', journal_hook ''B''] ctx0
     (NewHookHints NilMap) []
   = (Inl ''R'', [''A.Before'', ''B.Before'', ''Resolve'', ''B.Error(R)'', ''A.Error(R)'',
                  ''B.Finally'', ''A.Finally''])"
proof -
  have P: "play take_fragment resolve_fail (NewHookHints NilMap)
             (map DoBefore [journal_hook ''A'', journal_hook ''B''] @ [DoResolve]
                @ map (DoError ''R'') (rev [journal_hook ''A'', journal_hook ''B''])
                @ map DoFinally (rev [journal_hook ''A'', journal_hook ''B''])) (ctx0, [])
           = ([(None, None), (None, None), (Some ''off'', Some ''R''), (None, None),
               (None, None), (None, None), (None, None)],
              (ctx0, [''A.Before'', ''B.Before'', ''Resolve'', ''B.Error(R)'', ''A.Error(R)'',
                      ''B.Finally'', ''A.Finally'']))"
    by (simp add: journal_hook_def resolve_fail_def apply_delta_def)
  have ok: "\<forall>out\<in>set (take (length [journal_hook ''A'', journal_hook ''B''])
                         [(None, None), (None, None), (Some ''off'', Some ''R''), (None, None),
                          (None, None), (None, None), (None :: string option, None)]).
              snd out = None"
    by simp
  have fail: "snd ([(None, None), (None, None), (Some ''off'', Some ''R''), (None, None),
                    (None, None), (None, None), (None :: string option, None)]
                   ! length [journal_hook ''A'', journal_hook ''B'']) = Some ''R''"
    by simp
  from executor_resolve_failure [OF P ok fail] show ?thesis
    by (rule conjunct1)
qed

end
